theory Spec2Isabelle
  imports Complex_Main "HOL-Library.Log_Nat" "HOL-Library.Multiset" "HOL-Library.Char_ord"
begin

section \<open>Data model\<close>

text \<open>
  The view of \<^verbatim>\<open>src/App.js\<close> works on the JSON objects the events API returns.
  An object is a record; a property that may be missing (or \<^verbatim>\<open>null\<close>) is an
  \<open>option\<close>, \<open>None\<close> standing for \<^verbatim>\<open>undefined\<close>/\<^verbatim>\<open>null\<close>. Strings are
  ASCII strings, identifiers are naturals compared with \<^verbatim>\<open>===\<close>, and a rating is a
  JSON integer. The field \<^verbatim>\<open>id\<close> is called \<open>event_id\<close> (\<open>comment_id\<close>) here.

  An entry of a comment array may itself be \<^verbatim>\<open>null\<close>: the body of the
  create-comment response is appended to the array as it is parsed (line 162),
  so the element type of the array is \<open>comment option\<close>.
\<close>

record comment =
  comment_id :: nat
  nome_usuario :: "string option"
  comentario :: string
  classificacao :: "int option"
  id_evento :: nat

record event =
  event_id :: nat
  nome :: "string option"
  data :: "string option"
  duracao_qtd :: "nat option"
  duracao_tipo :: "string option"
  comentarios :: "comment option list option"

section \<open>Strings\<close>

text \<open>
  \<^verbatim>\<open>String.prototype.toLowerCase\<close> on ASCII strings: the letters A to Z move by 32
  and every other ASCII character stays. Outside ASCII the function of the language
  folds further letters, which this definition does not; the theorems that depend on
  it are stated for ASCII strings.
\<close>

definition toLowerCase_char :: "char \<Rightarrow> char" where
  "toLowerCase_char c =
     (let n = (of_char c :: nat) in if 65 \<le> n \<and> n \<le> 90 then char_of (n + 32) else c)"

definition toLowerCase :: "string \<Rightarrow> string" where
  "toLowerCase s = map toLowerCase_char s"

text \<open>\<^verbatim>\<open>s.includes(t)\<close>: \<open>t\<close> occurs in \<open>s\<close> at some position; the empty string
  occurs in every string.\<close>

fun startsWith :: "string \<Rightarrow> string \<Rightarrow> bool" where
  "startsWith s [] = True"
| "startsWith [] (t # ts) = False"
| "startsWith (c # s) (t # ts) = (c = t \<and> startsWith s ts)"

fun includes_str :: "string \<Rightarrow> string \<Rightarrow> bool" where
  "includes_str [] t = startsWith [] t"
| "includes_str (c # s) t = (startsWith (c # s) t \<or> includes_str s t)"

section \<open>Dates\<close>

text \<open>
  A JavaScript \<^verbatim>\<open>Date\<close> is a time value in milliseconds since the epoch, or the
  invalid date, whose time value is \<^verbatim>\<open>NaN\<close>: \<open>Some t\<close> and \<open>None\<close>. The parsers
  \<^verbatim>\<open>parseISO\<close> (of date-fns) and \<^verbatim>\<open>new Date(string)\<close> belong to libraries; the
  functions that call them take them as a parameter of type \<open>string \<Rightarrow> int option\<close>.
  \<^verbatim>\<open>isEqual\<close> of date-fns compares the two time values with \<^verbatim>\<open>===\<close>, and
  \<^verbatim>\<open>NaN\<close> is equal to nothing.
\<close>

type_synonym jsdate = "int option"

definition isEqual :: "jsdate \<Rightarrow> jsdate \<Rightarrow> bool" where
  "isEqual a b = (case a of None \<Rightarrow> False | Some x \<Rightarrow> (case b of None \<Rightarrow> False | Some y \<Rightarrow> x = y))"

section \<open>Filtering (lines 70 to 89)\<close>

text \<open>
  The callback of \<^verbatim>\<open>events.filter\<close>. Every element of the collection is an object
  (built by the object literals of lines 47 and 115), so the guard \<^verbatim>\<open>event &&\<close> is
  true; \<^verbatim>\<open>event.nome\<close> and \<^verbatim>\<open>event.data\<close> are falsy when missing or empty. The
  second test of \<^verbatim>\<open>dateFilter\<close> (line 84) is kept as the source has it.
\<close>

definition matchesSearch :: "string \<Rightarrow> event \<Rightarrow> bool" where
  "matchesSearch searchTerm event =
     (searchTerm = [] \<or>
      (case nome event of
         None \<Rightarrow> False
       | Some n \<Rightarrow> n \<noteq> [] \<and> includes_str (toLowerCase n) (toLowerCase searchTerm)))"

definition matchesDateRange :: "(string \<Rightarrow> jsdate) \<Rightarrow> string \<Rightarrow> event \<Rightarrow> bool" where
  "matchesDateRange parseISO dateFilter event =
     (case data event of
        None \<Rightarrow> True
      | Some d \<Rightarrow>
          if d \<noteq> [] then
            (let eventDate = parseISO d in
             if dateFilter \<noteq> [] then isEqual eventDate (parseISO dateFilter)
             else if dateFilter \<noteq> [] then False
             else True)
          else True)"

definition filteredEvents :: "(string \<Rightarrow> jsdate) \<Rightarrow> event list \<Rightarrow> string \<Rightarrow> string \<Rightarrow> event list" where
  "filteredEvents parseISO events searchTerm dateFilter =
     filter (\<lambda>event. matchesSearch searchTerm event \<and> matchesDateRange parseISO dateFilter event) events"

subsection \<open>The filter as the specification words it\<close>









definition has_no_date :: "event \<Rightarrow> bool" where
  "has_no_date e = (data e = None \<or> data e = Some [])"



section \<open>Numbers\<close>

text \<open>
  A finite JavaScript number is the rational it denotes. Every arithmetic result is
  rounded to the nearest binary64 value, ties to the even significand: 53 bits above
  the exponent \<open>- 1074\<close>. Overflow to \<^verbatim>\<open>Infinity\<close> (a result of magnitude \<open>2 ^ 1024\<close>
  or more) is outside this model.
\<close>

definition round_half_even :: "rat \<Rightarrow> int" where
  "round_half_even x =
     (let f = \<lfloor>x\<rfloor>; d = x - of_int f
      in if d < 1 / 2 then f else if 1 / 2 < d then f + 1 else if even f then f else f + 1)"

text \<open>For \<open>0 < x\<close>, the exponent \<open>e\<close> with \<open>2 ^ e \<le> x < 2 ^ (e + 1)\<close>.\<close>

definition floor_log2 :: "rat \<Rightarrow> int" where
  "floor_log2 x =
     (let p = fst (quotient_of x); q = snd (quotient_of x); k = bitlen p - bitlen q
      in if 2 powi k \<le> x then k else k - 1)"

definition fl :: "rat \<Rightarrow> rat" where
  "fl x =
     (if x = 0 then 0
      else let a = \<bar>x\<bar>;
               e = max (floor_log2 a - 52) (- 1074);
               m = round_half_even (a / 2 powi e)
           in sgn x * of_int m * 2 powi e)"

definition js_add :: "rat \<Rightarrow> rat \<Rightarrow> rat" where
  "js_add a b = fl (a + b)"

definition js_div :: "rat \<Rightarrow> rat \<Rightarrow> rat" where
  "js_div a b = fl (a / b)"

text \<open>
  \<^verbatim>\<open>Number.prototype.toFixed(1)\<close> for a number below \<open>10 ^ 21\<close> in magnitude: the sign,
  then the integer \<open>n\<close> nearest to ten times the magnitude (the larger one of two),
  written in decimal, padded to two digits, with the point before the last digit.
\<close>

definition digit_char :: "nat \<Rightarrow> char" where
  "digit_char d = char_of (48 + d)"

function decimal_digits :: "nat \<Rightarrow> string" where
  "decimal_digits n =
     (if n < 10 then [digit_char n] else decimal_digits (n div 10) @ [digit_char (n mod 10)])"
  by pat_completeness auto
termination
  by (relation "measure (\<lambda>n. n)") auto

declare decimal_digits.simps [simp del]

definition tenths :: "nat \<Rightarrow> string" where
  "tenths n =
     (let m = decimal_digits n;
          m = (if length m \<le> 1 then replicate (2 - length m) (CHR ''0'') @ m else m);
          k = length m
      in take (k - 1) m @ ''.'' @ drop (k - 1) m)"

definition toFixed1 :: "rat \<Rightarrow> string" where
  "toFixed1 x =
     (let s = (if x < 0 then ''-'' else []);
          n = nat \<lfloor>\<bar>x\<bar> * 10 + 1 / 2\<rfloor>
      in s @ tenths n)"

section \<open>Average rating (lines 193 to 203)\<close>

text \<open>
  Reading a property of \<^verbatim>\<open>null\<close> throws a \<^verbatim>\<open>TypeError\<close>; this is the one way the
  function can throw on the values of the data model. \<^verbatim>\<open>com.classificacao || 0\<close>
  is \<open>0\<close> for a missing rating and for the rating \<open>0\<close>.
\<close>

datatype js_error = TypeError

definition rating_or_zero :: "comment \<Rightarrow> rat" where
  "rating_or_zero com =
     (case classificacao com of None \<Rightarrow> 0 | Some r \<Rightarrow> if r = 0 then 0 else of_int r)"

fun reduce_ratings :: "comment option list \<Rightarrow> rat \<Rightarrow> js_error + rat" where
  "reduce_ratings [] acc = Inr acc"
| "reduce_ratings (com # coms) acc =
     (case com of
        None \<Rightarrow> Inl TypeError
      | Some c \<Rightarrow> reduce_ratings coms (js_add acc (rating_or_zero c)))"

definition calculateAverageRating :: "event option \<Rightarrow> js_error + string" where
  "calculateAverageRating event =
     (case event of
        None \<Rightarrow> Inr ''N/A''
      | Some e \<Rightarrow>
          (case comentarios e of
             None \<Rightarrow> Inr ''N/A''
           | Some coms \<Rightarrow>
               if length coms = 0 then Inr ''N/A''
               else (case reduce_ratings coms 0 of
                       Inl err \<Rightarrow> Inl err
                     | Inr total_rating \<Rightarrow> Inr (toFixed1 (js_div total_rating (of_nat (length coms)))))))"

subsection \<open>The mean as the specification words it\<close>

definition rating_of :: "comment option \<Rightarrow> int" where
  "rating_of com = (case com of None \<Rightarrow> 0 | Some c \<Rightarrow> (case classificacao c of None \<Rightarrow> 0 | Some r \<Rightarrow> r))"

definition mean_rating :: "comment option list \<Rightarrow> rat" where
  "mean_rating coms = of_int (sum_list (map rating_of coms)) / of_nat (length coms)"

definition is_comment :: "comment option \<Rightarrow> bool" where
  "is_comment com = (com \<noteq> None)"

definition rating_in_range :: "comment option \<Rightarrow> bool" where
  "rating_in_range com = (0 \<le> rating_of com \<and> rating_of com \<le> 5)"

text \<open>The number of \<open>n\<close> tenths written with one decimal: the integer part, the
  point, one digit.\<close>

definition one_decimal :: "nat \<Rightarrow> string" where
  "one_decimal n = decimal_digits (n div 10) @ ''.'' @ [digit_char (n mod 10)]"

section \<open>Sorting (lines 92 to 96)\<close>

text \<open>
  \<^verbatim>\<open>a.data ? new Date(a.data) : 0\<close>, and the difference of the two time values, which
  is \<^verbatim>\<open>NaN\<close> (\<open>None\<close>) when one of the dates is invalid. Only the sign of the
  difference is used.
\<close>

definition dateOf :: "(string \<Rightarrow> jsdate) \<Rightarrow> event \<Rightarrow> jsdate" where
  "dateOf newDate a =
     (case data a of None \<Rightarrow> Some 0 | Some d \<Rightarrow> if d \<noteq> [] then newDate d else Some 0)"

definition compareFn :: "(string \<Rightarrow> jsdate) \<Rightarrow> event \<Rightarrow> event \<Rightarrow> int option" where
  "compareFn newDate a b =
     (let dateA = dateOf newDate a; dateB = dateOf newDate b
      in case dateB of
           None \<Rightarrow> None
         | Some tb \<Rightarrow> (case dateA of None \<Rightarrow> None | Some ta \<Rightarrow> Some (tb - ta)))"

text \<open>
  \<^verbatim>\<open>Array.prototype.sort\<close> is stable: \<open>a\<close> goes after \<open>b\<close> when the comparison is
  positive, and two elements that compare as zero (or \<^verbatim>\<open>NaN\<close>) keep their order. For
  a consistent comparison this fixes the result, and insertion from the right computes
  it. With an invalid date among the elements the comparison is not consistent, and
  ECMAScript leaves the order to the engine.
\<close>

fun insert_sorted :: "('a \<Rightarrow> 'a \<Rightarrow> int option) \<Rightarrow> 'a \<Rightarrow> 'a list \<Rightarrow> 'a list" where
  "insert_sorted cmp x [] = [x]"
| "insert_sorted cmp x (y # ys) =
     (if (case cmp x y of None \<Rightarrow> False | Some v \<Rightarrow> 0 < v)
      then y # insert_sorted cmp x ys
      else x # y # ys)"

definition array_sort :: "('a \<Rightarrow> 'a \<Rightarrow> int option) \<Rightarrow> 'a list \<Rightarrow> 'a list" where
  "array_sort cmp xs = foldr (insert_sorted cmp) xs []"

definition sortedEvents :: "(string \<Rightarrow> jsdate) \<Rightarrow> event list \<Rightarrow> event list" where
  "sortedEvents newDate filtered = array_sort (compareFn newDate) filtered"

text \<open>The sort key: the time value of an event, zero for an event without a date.\<close>

definition time_value :: "(string \<Rightarrow> jsdate) \<Rightarrow> event \<Rightarrow> int" where
  "time_value newDate e = (case dateOf newDate e of None \<Rightarrow> 0 | Some t \<Rightarrow> t)"

definition valid_dates :: "(string \<Rightarrow> jsdate) \<Rightarrow> event list \<Rightarrow> bool" where
  "valid_dates newDate es = list_all (\<lambda>e. dateOf newDate e \<noteq> None) es"

section \<open>Application state and the three requests\<close>

text \<open>
  The state of the component, without the search inputs and the two form records
  (the handlers only reset the forms). The outcome of \<^verbatim>\<open>fetch\<close> is a rejection with
  the message of the exception, or a response with its status and the outcome of
  \<^verbatim>\<open>response.json()\<close>: the parsed body, or the message of the exception thrown while
  the body is parsed and used inside the \<^verbatim>\<open>try\<close> block. An exception is
  represented by its message, the only part of it the \<^verbatim>\<open>catch\<close> blocks read.
\<close>

record app_state =
  events :: "event list"
  selectedEvent :: "event option"
  loading :: bool
  error :: "string option"
  expandedEventId :: "nat option"
  showNewEventForm :: bool
  showNewCommentForm :: "nat option"

text \<open>The initial values of the \<^verbatim>\<open>useState\<close> calls (lines 7 to 15).\<close>

definition initial_state :: app_state where
  "initial_state = \<lparr>events = [], selectedEvent = None, loading = True, error = None,
     expandedEventId = None, showNewEventForm = False, showNewCommentForm = None\<rparr>"

datatype 'a response = Response (status: nat) (json: "string + 'a")

datatype 'a fetch_result = Rejected string | Resolved "'a response"

definition ok :: "'a response \<Rightarrow> bool" where
  "ok r = (200 \<le> status r \<and> status r \<le> 299)"

definition comentarios_or_empty :: "event \<Rightarrow> comment option list" where
  "comentarios_or_empty event = (case comentarios event of None \<Rightarrow> [] | Some coms \<Rightarrow> coms)"

definition fetchData :: "event list fetch_result \<Rightarrow> app_state \<Rightarrow> app_state" where
  "fetchData eventsResponse st =
     (let st1 = st\<lparr>loading := True\<rparr> in
      case (case eventsResponse of
              Rejected message \<Rightarrow> Inl message
            | Resolved r \<Rightarrow>
                if \<not> ok r then Inl ''Failed to fetch events''
                else (case json r of
                        Inl message \<Rightarrow> Inl message
                      | Inr eventsData \<Rightarrow>
                          Inr (map (\<lambda>event. event\<lparr>comentarios := Some (comentarios_or_empty event)\<rparr>)
                                 eventsData)))
      of Inl message \<Rightarrow> st1\<lparr>error := Some message, loading := False\<rparr>
       | Inr eventsWithComments \<Rightarrow> st1\<lparr>events := eventsWithComments, loading := False\<rparr>)"

definition toggleEvent :: "event \<Rightarrow> app_state \<Rightarrow> app_state" where
  "toggleEvent event st =
     st\<lparr>expandedEventId :=
          (if expandedEventId st = Some (event_id event) then None else Some (event_id event)),
        selectedEvent := Some event\<rparr>"

definition handleSubmitNewEvent :: "event fetch_result \<Rightarrow> app_state \<Rightarrow> app_state" where
  "handleSubmitNewEvent response st =
     (case (case response of
              Rejected message \<Rightarrow> Inl message
            | Resolved r \<Rightarrow>
                if \<not> ok r then Inl ''Failed to create event''
                else (case json r of
                        Inl message \<Rightarrow> Inl message
                      | Inr createdEvent \<Rightarrow>
                          Inr (createdEvent\<lparr>comentarios := Some (comentarios_or_empty createdEvent)\<rparr>)))
      of Inl message \<Rightarrow> st\<lparr>error := Some message\<rparr>
       | Inr eventWithComments \<Rightarrow>
           st\<lparr>events := events st @ [eventWithComments], showNewEventForm := False\<rparr>)"

definition updatedEvents :: "event list \<Rightarrow> nat \<Rightarrow> comment option \<Rightarrow> event list" where
  "updatedEvents evs eventId createdComment =
     map (\<lambda>event.
            if event_id event = eventId
            then event\<lparr>comentarios := Some (comentarios_or_empty event @ [createdComment])\<rparr>
            else event) evs"

definition handleSubmitNewComment :: "nat \<Rightarrow> comment option fetch_result \<Rightarrow> app_state \<Rightarrow> app_state" where
  "handleSubmitNewComment eventId response st =
     (case (case response of
              Rejected message \<Rightarrow> Inl message
            | Resolved r \<Rightarrow>
                if \<not> ok r then Inl ''Failed to create comment'' else json r)
      of Inl message \<Rightarrow> st\<lparr>error := Some message\<rparr>
       | Inr createdComment \<Rightarrow>
           (let st1 = st\<lparr>events := updatedEvents (events st) eventId createdComment\<rparr>;
                st2 = (case selectedEvent st of
                         None \<Rightarrow> st1
                       | Some sel \<Rightarrow>
                           if event_id sel = eventId
                           then st1\<lparr>selectedEvent :=
                                  Some (sel\<lparr>comentarios := Some (comentarios_or_empty sel @ [createdComment])\<rparr>)\<rparr>
                           else st1)
            in st2\<lparr>showNewCommentForm := None\<rparr>))"

text \<open>A request fails: it is rejected, its status is not a success, or its body does not parse.\<close>

definition failed :: "'a fetch_result \<Rightarrow> bool" where
  "failed res =
     (case res of Rejected message \<Rightarrow> True
      | Resolved r \<Rightarrow> \<not> ok r \<or> (case json r of Inl message \<Rightarrow> True | Inr v \<Rightarrow> False))"

section \<open>The event objects in a store\<close>

text \<open>
  To tell a new object from an object changed in place, the events are put in a store:
  an object is an address (an index of the store), the collection is a list of
  addresses, and an object literal allocates. \<^verbatim>\<open>events.map\<close> of lines 158 to 166
  then returns the new store with the new array.
\<close>

type_synonym store = "event list"

definition alloc :: "store \<Rightarrow> event \<Rightarrow> store \<times> nat" where
  "alloc h e = (h @ [e], length h)"

fun updatedEvents_store :: "store \<Rightarrow> nat list \<Rightarrow> nat \<Rightarrow> comment option \<Rightarrow> store \<times> nat list" where
  "updatedEvents_store h [] eventId createdComment = (h, [])"
| "updatedEvents_store h (r # rs) eventId createdComment =
     (let event = h ! r in
      if event_id event = eventId then
        (let (h1, r1) = alloc h (event\<lparr>comentarios := Some (comentarios_or_empty event @ [createdComment])\<rparr>);
             (h2, rs2) = updatedEvents_store h1 rs eventId createdComment
         in (h2, r1 # rs2))
      else
        (let (h2, rs2) = updatedEvents_store h rs eventId createdComment
         in (h2, r # rs2)))"

definition valid_refs :: "store \<Rightarrow> nat list \<Rightarrow> bool" where
  "valid_refs h rs = list_all (\<lambda>r. r < length h) rs"

definition deref :: "store \<Rightarrow> nat list \<Rightarrow> event list" where
  "deref h rs = map (\<lambda>r. h ! r) rs"

section \<open>Example data\<close>

text \<open>
  A parser that knows three dates (their time values at midnight UTC), four events, a
  state that lists three of them, and two comments.
\<close>

definition iso_example :: "string \<Rightarrow> jsdate" where
  "iso_example s =
     (if s = ''2024-05-01'' then Some 1714521600000
      else if s = ''2024-06-15'' then Some 1718409600000
      else if s = ''1969-12-31'' then Some (- 86400000)
      else None)"

definition techconf :: event where
  "techconf = \<lparr>event_id = 1, nome = Some ''TechConf 2024'', data = Some ''2024-05-01'',
     duracao_qtd = Some 2, duracao_tipo = Some ''dias'', comentarios = Some []\<rparr>"

definition workshop :: event where
  "workshop = \<lparr>event_id = 2, nome = Some ''Workshop'', data = Some ''2024-06-15'',
     duracao_qtd = Some 3, duracao_tipo = Some ''horas'', comentarios = Some []\<rparr>"

definition unnamed :: event where
  "unnamed = \<lparr>event_id = 3, nome = None, data = None,
     duracao_qtd = None, duracao_tipo = None, comentarios = Some []\<rparr>"



definition confraria :: event where
  "confraria = \<lparr>event_id = 4, nome = Some ''Confraria'', data = None,
     duracao_qtd = None, duracao_tipo = None, comentarios = None\<rparr>"

definition listing :: app_state where
  "listing = initial_state\<lparr>events := [techconf, workshop, unnamed], loading := False\<rparr>"

definition praise :: comment where
  "praise = \<lparr>comment_id = 10, nome_usuario = Some ''Ana'', comentario = ''Muito bom'',
     classificacao = Some 4, id_evento = 2\<rparr>"

definition critique :: comment where
  "critique = \<lparr>comment_id = 11, nome_usuario = None, comentario = ''Fraco'',
     classificacao = Some 2, id_evento = 2\<rparr>"

definition reveillon :: event where
  "reveillon = \<lparr>event_id = 5, nome = Some ''Reveillon 1969'', data = Some ''1969-12-31'',
     duracao_qtd = Some 1, duracao_tipo = Some ''dias'', comentarios = Some []\<rparr>"

definition rated :: event where
  "rated = workshop\<lparr>comentarios := Some [Some praise, Some critique]\<rparr>"

definition encore :: comment where
  "encore = \<lparr>comment_id = 12, nome_usuario = Some ''Rui'', comentario = ''Voltarei'',
     classificacao = Some 5, id_evento = 2\<rparr>"



section \<open>Facts about strings\<close>









section \<open>Facts about the filter\<close>





section \<open>Claims about the filter\<close>



text \<open>
  C6. With the empty search term and the empty date filter, the filter returns the
  collection as it is.
\<close>

theorem filter_identity:
  "filteredEvents parseISO evs [] [] = evs"
  by (simp add: filteredEvents_def matchesSearch_def matchesDateRange_def split: option.splits)

theorem filter_identity_witness:
  "filteredEvents iso_example [techconf, workshop, unnamed, confraria] [] [] = [techconf, workshop, unnamed, confraria]"
  using filter_identity[of iso_example "[techconf, workshop, unnamed, confraria]"] by simp

section \<open>Claims about the requests\<close>

lemma failed_cases:
  "failed res \<longleftrightarrow>
     (\<exists>m. res = Rejected m) \<or> (\<exists>r. res = Resolved r \<and> \<not> ok r)
     \<or> (\<exists>r m. res = Resolved r \<and> ok r \<and> json r = Inl m)"
  by (cases res) (auto simp: failed_def split: sum.splits)

lemma handleSubmitNewEvent_failed:
  "failed res \<Longrightarrow> \<exists>m. handleSubmitNewEvent res st = st\<lparr>error := Some m\<rparr>"
  by (auto simp: failed_cases handleSubmitNewEvent_def)

lemma handleSubmitNewComment_failed:
  "failed res \<Longrightarrow> \<exists>m. handleSubmitNewComment eventId res st = st\<lparr>error := Some m\<rparr>"
  by (auto simp: failed_cases handleSubmitNewComment_def)

lemma handleSubmitNewEvent_success:
  "ok r \<Longrightarrow> json r = Inr createdEvent \<Longrightarrow>
     handleSubmitNewEvent (Resolved r) st =
       st\<lparr>events := events st @ [createdEvent\<lparr>comentarios := Some (comentarios_or_empty createdEvent)\<rparr>],
          showNewEventForm := False\<rparr>"
  by (simp add: handleSubmitNewEvent_def)

text \<open>
  C5. After a successful create-event request the collection is the old collection
  with the created event at the end; the comment sequence of the appended event is
  present, and it is the empty sequence when the response has none.
\<close>

theorem appendEvent_defaults_comments:
  "ok r \<Longrightarrow> json r = Inr createdEvent \<Longrightarrow>
     events (handleSubmitNewEvent (Resolved r) st) =
       events st @ [createdEvent\<lparr>comentarios := Some (comentarios_or_empty createdEvent)\<rparr>]
     \<and> (comentarios createdEvent = None \<longrightarrow>
          comentarios (last (events (handleSubmitNewEvent (Resolved r) st))) = Some [])
     \<and> (\<forall>coms. comentarios createdEvent = Some coms \<longrightarrow>
          last (events (handleSubmitNewEvent (Resolved r) st)) = createdEvent)"
  by (simp add: handleSubmitNewEvent_success comentarios_or_empty_def)

theorem appendEvent_defaults_comments_witness:
  "ok (Response 201 (Inr confraria)) \<and> json (Response 201 (Inr confraria)) = Inr confraria
   \<and> comentarios confraria = None
   \<and> events (handleSubmitNewEvent (Resolved (Response 201 (Inr confraria))) listing)
       = [techconf, workshop, unnamed, confraria\<lparr>comentarios := Some []\<rparr>]
   \<and> comentarios (last (events (handleSubmitNewEvent (Resolved (Response 201 (Inr confraria))) listing)))
       = Some []"
  using appendEvent_defaults_comments[of "Response 201 (Inr confraria)" confraria listing]
  by (simp add: ok_def confraria_def listing_def comentarios_or_empty_def)

text \<open>
  C7 as stated fails: a failed fetch of the events, a failed creation of an event and
  a rejected \<^verbatim>\<open>fetch\<close> leave three different messages.
\<close>

theorem error_messages_differ:
  "error (fetchData (Resolved (Response 500 (Inl []))) initial_state) = Some ''Failed to fetch events''
   \<and> error (handleSubmitNewEvent (Resolved (Response 500 (Inl []))) initial_state) = Some ''Failed to create event''
   \<and> error (handleSubmitNewComment 1 (Resolved (Response 500 (Inl []))) initial_state) = Some ''Failed to create comment''
   \<and> error (fetchData (Rejected ''Failed to fetch'') initial_state) = Some ''Failed to fetch''
   \<and> error (fetchData (Resolved (Response 500 (Inl []))) initial_state)
       \<noteq> error (handleSubmitNewEvent (Resolved (Response 500 (Inl []))) initial_state)
   \<and> error (fetchData (Resolved (Response 500 (Inl []))) initial_state)
       \<noteq> error (fetchData (Rejected ''Failed to fetch'') initial_state)"
  by (simp add: fetchData_def handleSubmitNewEvent_def handleSubmitNewComment_def ok_def
      initial_state_def)

text \<open>
  C7, amended. Every failure of one of the three requests is caught and its message
  is stored in the one error field of the state. For a given request every status that
  is not a success, 4xx or 5xx alike, leaves the same fixed message, one per request;
  a rejected \<^verbatim>\<open>fetch\<close> and a body that does not parse leave the message of the
  exception thrown.
\<close>

theorem failure_stored_in_error:
  "(\<forall>m. error (fetchData (Rejected m) st) = Some m
        \<and> error (handleSubmitNewEvent (Rejected m) st) = Some m
        \<and> error (handleSubmitNewComment eventId (Rejected m) st) = Some m)
   \<and> (\<not> ok r1 \<longrightarrow> error (fetchData (Resolved r1) st) = Some ''Failed to fetch events'')
   \<and> (\<not> ok r2 \<longrightarrow> error (handleSubmitNewEvent (Resolved r2) st) = Some ''Failed to create event'')
   \<and> (\<not> ok r3 \<longrightarrow> error (handleSubmitNewComment eventId (Resolved r3) st) = Some ''Failed to create comment'')
   \<and> (\<forall>m. ok r1 \<and> json r1 = Inl m \<longrightarrow> error (fetchData (Resolved r1) st) = Some m)
   \<and> (\<forall>m. ok r2 \<and> json r2 = Inl m \<longrightarrow> error (handleSubmitNewEvent (Resolved r2) st) = Some m)
   \<and> (\<forall>m. ok r3 \<and> json r3 = Inl m \<longrightarrow> error (handleSubmitNewComment eventId (Resolved r3) st) = Some m)"
  by (simp add: fetchData_def handleSubmitNewEvent_def handleSubmitNewComment_def)

theorem failure_stored_in_error_witness:
  "\<not> ok (Response 404 (Inl []) :: event list response)
   \<and> \<not> ok (Response 503 (Inl []) :: event response)
   \<and> ok (Response 200 (Inl ''Unexpected end of JSON input'') :: comment option response)
   \<and> error (fetchData (Resolved (Response 404 (Inl []))) listing) = Some ''Failed to fetch events''
   \<and> error (handleSubmitNewEvent (Resolved (Response 503 (Inl []))) listing) = Some ''Failed to create event''
   \<and> error (handleSubmitNewComment 2 (Resolved (Response 200 (Inl ''Unexpected end of JSON input''))) listing)
       = Some ''Unexpected end of JSON input''
   \<and> error (handleSubmitNewComment 2 (Rejected ''Failed to fetch'') listing) = Some ''Failed to fetch''"
  using failure_stored_in_error[of listing 2 "Response 404 (Inl [])" "Response 503 (Inl [])"
      "Response 200 (Inl ''Unexpected end of JSON input'')"]
  by (simp add: ok_def)

text \<open>
  C9. A create-event or create-comment request that fails leaves the collection as it
  was: the state changes in its error field only.
\<close>

theorem failed_request_keeps_events:
  "(failed res1 \<longrightarrow>
      events (handleSubmitNewEvent res1 st) = events st
      \<and> (\<exists>m. handleSubmitNewEvent res1 st = st\<lparr>error := Some m\<rparr>))
   \<and> (failed res2 \<longrightarrow>
      events (handleSubmitNewComment eventId res2 st) = events st
      \<and> (\<exists>m. handleSubmitNewComment eventId res2 st = st\<lparr>error := Some m\<rparr>))"
proof -
  have "events (handleSubmitNewEvent res1 st) = events st
      \<and> (\<exists>m. handleSubmitNewEvent res1 st = st\<lparr>error := Some m\<rparr>)" if "failed res1"
    using handleSubmitNewEvent_failed[OF that, of st] by auto
  moreover have "events (handleSubmitNewComment eventId res2 st) = events st
      \<and> (\<exists>m. handleSubmitNewComment eventId res2 st = st\<lparr>error := Some m\<rparr>)" if "failed res2"
    using handleSubmitNewComment_failed[OF that, of eventId st] by auto
  ultimately show ?thesis by blast
qed

theorem failed_request_keeps_events_witness:
  "failed (Resolved (Response 500 (Inr confraria)))
   \<and> failed (Rejected ''Failed to fetch'' :: comment option fetch_result)
   \<and> events (handleSubmitNewEvent (Resolved (Response 500 (Inr confraria))) listing)
        = [techconf, workshop, unnamed]
   \<and> events (handleSubmitNewComment 2 (Rejected ''Failed to fetch'') listing)
        = [techconf, workshop, unnamed]"
proof -
  have f1: "failed (Resolved (Response 500 (Inr confraria)))"
    and f2: "failed (Rejected ''Failed to fetch'' :: comment option fetch_result)"
    by (simp_all add: failed_def ok_def)
  have ev: "events listing = [techconf, workshop, unnamed]"
    by (simp add: listing_def)
  show ?thesis
    using failed_request_keeps_events[of "Resolved (Response 500 (Inr confraria))" listing
        "Rejected ''Failed to fetch''" 2] f1 f2 ev
    by simp
qed

section \<open>Claims about the selected event\<close>




lemma toggleEvent_selects:
  "selectedEvent (toggleEvent e st) = Some e \<and> events (toggleEvent e st) = events st"
  by (simp add: toggleEvent_def)




section \<open>Claims about appending a comment\<close>

lemma exactly_one_index:
  "length (filter P xs) = 1 \<Longrightarrow>
     \<exists>i < length xs. P (xs ! i) \<and> (\<forall>j < length xs. j \<noteq> i \<longrightarrow> \<not> P (xs ! j))"
proof (induction xs)
  case Nil
  then show ?case by simp
next
  case (Cons x xs)
  show ?case
  proof (cases "P x")
    case True
    with Cons.prems have "filter P xs = []" by simp
    then have none: "\<forall>y \<in> set xs. \<not> P y" by (simp add: filter_empty_conv)
    have "\<not> P ((x # xs) ! j)" if "j < length (x # xs)" "j \<noteq> 0" for j
      using that none by (cases j) auto
    with True have "P ((x # xs) ! 0) \<and> (\<forall>j < length (x # xs). j \<noteq> 0 \<longrightarrow> \<not> P ((x # xs) ! j))"
      by simp
    then show ?thesis by blast
  next
    case False
    with Cons.prems have "length (filter P xs) = 1" by simp
    then obtain i where i: "i < length xs" "P (xs ! i)"
      "\<forall>j < length xs. j \<noteq> i \<longrightarrow> \<not> P (xs ! j)"
      using Cons.IH by blast
    have "\<not> P ((x # xs) ! j)" if "j < length (x # xs)" "j \<noteq> Suc i" for j
      using that i(3) False by (cases j) auto
    with i(1,2) have "Suc i < length (x # xs) \<and> P ((x # xs) ! Suc i)
        \<and> (\<forall>j < length (x # xs). j \<noteq> Suc i \<longrightarrow> \<not> P ((x # xs) ! j))"
      by simp
    then show ?thesis by blast
  qed
qed

lemma valid_refs_append: "valid_refs h rs \<Longrightarrow> valid_refs (h @ ext) rs"
  by (induction rs) (auto simp: valid_refs_def)

lemma updatedEvents_store_frame:
  "valid_refs h rs \<Longrightarrow> updatedEvents_store h rs eventId c = (h', rs') \<Longrightarrow>
     (\<exists>ext. h' = h @ ext) \<and> length rs' = length rs
     \<and> (\<forall>j < length rs.
           (event_id (h ! (rs ! j)) = eventId \<longrightarrow>
              length h \<le> rs' ! j \<and> rs' ! j < length h'
              \<and> h' ! (rs' ! j) = (h ! (rs ! j))\<lparr>comentarios :=
                   Some (comentarios_or_empty (h ! (rs ! j)) @ [c])\<rparr>)
           \<and> (event_id (h ! (rs ! j)) \<noteq> eventId \<longrightarrow> rs' ! j = rs ! j))"
proof (induction rs arbitrary: h h' rs')
  case Nil
  then show ?case by simp
next
  case (Cons r rs)
  from Cons.prems(1) have r: "r < length h" and rs: "valid_refs h rs"
    by (simp_all add: valid_refs_def)
  have old: "rs ! j < length h" if "j < length rs" for j
    using rs that by (simp add: valid_refs_def list_all_length)
  show ?case
  proof (cases "event_id (h ! r) = eventId")
    case True
    let ?new = "(h ! r)\<lparr>comentarios := Some (comentarios_or_empty (h ! r) @ [c])\<rparr>"
    obtain h2 rs2 where rec: "updatedEvents_store (h @ [?new]) rs eventId c = (h2, rs2)"
      by (cases "updatedEvents_store (h @ [?new]) rs eventId c") auto
    with True Cons.prems(2) have res: "h' = h2" "rs' = length h # rs2"
      by (simp_all add: alloc_def Let_def)
    from Cons.IH[OF valid_refs_append[OF rs] rec] obtain ext where
      ext: "h2 = (h @ [?new]) @ ext" and len: "length rs2 = length rs"
      and ih: "\<forall>j < length rs.
           (event_id ((h @ [?new]) ! (rs ! j)) = eventId \<longrightarrow>
              length (h @ [?new]) \<le> rs2 ! j \<and> rs2 ! j < length h2
              \<and> h2 ! (rs2 ! j) = ((h @ [?new]) ! (rs ! j))\<lparr>comentarios :=
                   Some (comentarios_or_empty ((h @ [?new]) ! (rs ! j)) @ [c])\<rparr>)
           \<and> (event_id ((h @ [?new]) ! (rs ! j)) \<noteq> eventId \<longrightarrow> rs2 ! j = rs ! j)"
      by blast
    have same: "(h @ [?new]) ! (rs ! j) = h ! (rs ! j)" if "j < length rs" for j
      using old[OF that] by (simp add: nth_append)
    have pre: "\<exists>ext. h' = h @ ext" using ext res by simp
    have step: "(event_id (h ! ((r # rs) ! j)) = eventId \<longrightarrow>
              length h \<le> rs' ! j \<and> rs' ! j < length h'
              \<and> h' ! (rs' ! j) = (h ! ((r # rs) ! j))\<lparr>comentarios :=
                   Some (comentarios_or_empty (h ! ((r # rs) ! j)) @ [c])\<rparr>)
           \<and> (event_id (h ! ((r # rs) ! j)) \<noteq> eventId \<longrightarrow> rs' ! j = (r # rs) ! j)"
      if j: "j < length (r # rs)" for j
    proof (cases j)
      case 0
      then show ?thesis using True res ext by (simp add: nth_append)
    next
      case (Suc k)
      with j have k: "k < length rs" by simp
      from ih k same[OF k] show ?thesis using Suc res by auto
    qed
    from pre len res step show ?thesis by simp
  next
    case False
    obtain h2 rs2 where rec: "updatedEvents_store h rs eventId c = (h2, rs2)"
      by (cases "updatedEvents_store h rs eventId c") auto
    with False Cons.prems(2) have res: "h' = h2" "rs' = r # rs2"
      by (simp_all add: Let_def)
    from Cons.IH[OF rs rec] obtain ext where
      ext: "h2 = h @ ext" and len: "length rs2 = length rs"
      and ih: "\<forall>j < length rs.
           (event_id (h ! (rs ! j)) = eventId \<longrightarrow>
              length h \<le> rs2 ! j \<and> rs2 ! j < length h2
              \<and> h2 ! (rs2 ! j) = (h ! (rs ! j))\<lparr>comentarios :=
                   Some (comentarios_or_empty (h ! (rs ! j)) @ [c])\<rparr>)
           \<and> (event_id (h ! (rs ! j)) \<noteq> eventId \<longrightarrow> rs2 ! j = rs ! j)"
      by blast
    have step: "(event_id (h ! ((r # rs) ! j)) = eventId \<longrightarrow>
              length h \<le> rs' ! j \<and> rs' ! j < length h'
              \<and> h' ! (rs' ! j) = (h ! ((r # rs) ! j))\<lparr>comentarios :=
                   Some (comentarios_or_empty (h ! ((r # rs) ! j)) @ [c])\<rparr>)
           \<and> (event_id (h ! ((r # rs) ! j)) \<noteq> eventId \<longrightarrow> rs' ! j = (r # rs) ! j)"
      if j: "j < length (r # rs)" for j
    proof (cases j)
      case 0
      then show ?thesis using False res by simp
    next
      case (Suc k)
      with j have k: "k < length rs" by simp
      from ih k show ?thesis using Suc res by auto
    qed
    from ext len res step show ?thesis by simp
  qed
qed

lemma updatedEvents_store_deref:
  "valid_refs h rs \<Longrightarrow> updatedEvents_store h rs eventId c = (h', rs') \<Longrightarrow>
     deref h' rs' = updatedEvents (deref h rs) eventId c"
proof -
  assume v: "valid_refs h rs" and run: "updatedEvents_store h rs eventId c = (h', rs')"
  from updatedEvents_store_frame[OF v run] obtain ext where
    ext: "h' = h @ ext" and len: "length rs' = length rs"
    and fr: "\<forall>j < length rs.
           (event_id (h ! (rs ! j)) = eventId \<longrightarrow>
              length h \<le> rs' ! j \<and> rs' ! j < length h'
              \<and> h' ! (rs' ! j) = (h ! (rs ! j))\<lparr>comentarios :=
                   Some (comentarios_or_empty (h ! (rs ! j)) @ [c])\<rparr>)
           \<and> (event_id (h ! (rs ! j)) \<noteq> eventId \<longrightarrow> rs' ! j = rs ! j)"
    by blast
  have old: "rs ! j < length h" if "j < length rs" for j
    using v that by (simp add: valid_refs_def list_all_length)
  show ?thesis
  proof (rule nth_equalityI)
    show "length (deref h' rs') = length (updatedEvents (deref h rs) eventId c)"
      by (simp add: deref_def updatedEvents_def len)
  next
    fix j assume "j < length (deref h' rs')"
    then have j: "j < length rs" by (simp add: deref_def len)
    show "deref h' rs' ! j = updatedEvents (deref h rs) eventId c ! j"
    proof (cases "event_id (h ! (rs ! j)) = eventId")
      case True
      with fr j show ?thesis by (simp add: deref_def updatedEvents_def len)
    next
      case False
      with fr j have "rs' ! j = rs ! j" by blast
      with False j old[OF j] show ?thesis
        by (simp add: deref_def updatedEvents_def len ext nth_append)
    qed
  qed
qed

text \<open>
  C4. For a collection with exactly one event of the given identifier, lines 158 to
  166 return an array of the same length in which every other position holds the
  object it held, unchanged, and the position of the matching event holds a newly
  allocated object: the matching event with its comment sequence kept and the created
  comment added at the end (the comment alone when the event had no sequence), every
  other field as it was. No object of the old store is changed, and the values of the
  new array are the ones \<open>updatedEvents\<close> computes on the values of the old one.
\<close>

theorem appendComment_frame:
  assumes "valid_refs h rs"
    and "length (filter (\<lambda>r. event_id (h ! r) = eventId) rs) = 1"
    and "updatedEvents_store h rs eventId createdComment = (h', rs')"
  shows "length rs' = length rs
     \<and> take (length h) h' = h
     \<and> deref h' rs' = updatedEvents (deref h rs) eventId createdComment
     \<and> (\<exists>i < length rs.
           event_id (h ! (rs ! i)) = eventId
           \<and> length h \<le> rs' ! i
           \<and> (\<forall>old. comentarios (h ! (rs ! i)) = Some old \<longrightarrow>
                 comentarios (h' ! (rs' ! i)) = Some (old @ [createdComment]))
           \<and> (comentarios (h ! (rs ! i)) = None \<longrightarrow>
                 comentarios (h' ! (rs' ! i)) = Some [createdComment])
           \<and> h' ! (rs' ! i) = (h ! (rs ! i))\<lparr>comentarios := comentarios (h' ! (rs' ! i))\<rparr>
           \<and> (\<forall>j < length rs. j \<noteq> i \<longrightarrow>
                 rs' ! j = rs ! j \<and> h' ! (rs' ! j) = h ! (rs ! j)))"
proof -
  from updatedEvents_store_frame[OF assms(1,3)] obtain ext where
    ext: "h' = h @ ext" and len: "length rs' = length rs"
    and fr: "\<forall>j < length rs.
           (event_id (h ! (rs ! j)) = eventId \<longrightarrow>
              length h \<le> rs' ! j \<and> rs' ! j < length h'
              \<and> h' ! (rs' ! j) = (h ! (rs ! j))\<lparr>comentarios :=
                   Some (comentarios_or_empty (h ! (rs ! j)) @ [createdComment])\<rparr>)
           \<and> (event_id (h ! (rs ! j)) \<noteq> eventId \<longrightarrow> rs' ! j = rs ! j)"
    by blast
  have old: "rs ! j < length h" if "j < length rs" for j
    using assms(1) that by (simp add: valid_refs_def list_all_length)
  from exactly_one_index[OF assms(2)] obtain i where
    i: "i < length rs" "event_id (h ! (rs ! i)) = eventId"
    and others: "\<forall>j < length rs. j \<noteq> i \<longrightarrow> event_id (h ! (rs ! j)) \<noteq> eventId"
    by blast
  have rest: "rs' ! j = rs ! j \<and> h' ! (rs' ! j) = h ! (rs ! j)"
    if "j < length rs" "j \<noteq> i" for j
  proof -
    from others that have "event_id (h ! (rs ! j)) \<noteq> eventId" by blast
    with fr that(1) have "rs' ! j = rs ! j" by blast
    with old[OF that(1)] show ?thesis by (simp add: ext nth_append)
  qed
  from fr i have fresh: "length h \<le> rs' ! i"
    and new: "h' ! (rs' ! i) = (h ! (rs ! i))\<lparr>comentarios :=
                   Some (comentarios_or_empty (h ! (rs ! i)) @ [createdComment])\<rparr>"
    by blast+
  have kept: "comentarios (h' ! (rs' ! i)) = Some (old @ [createdComment])"
    if "comentarios (h ! (rs ! i)) = Some old" for old
    using that by (simp add: new comentarios_or_empty_def)
  have none: "comentarios (h' ! (rs' ! i)) = Some [createdComment]"
    if "comentarios (h ! (rs ! i)) = None"
    using that by (simp add: new comentarios_or_empty_def)
  have fields: "h' ! (rs' ! i) = (h ! (rs ! i))\<lparr>comentarios := comentarios (h' ! (rs' ! i))\<rparr>"
    by (simp add: new)
  have rest': "\<forall>j < length rs. j \<noteq> i \<longrightarrow>
                 rs' ! j = rs ! j \<and> h' ! (rs' ! j) = h ! (rs ! j)"
    using rest by blast
  have kept': "\<forall>old. comentarios (h ! (rs ! i)) = Some old \<longrightarrow>
                 comentarios (h' ! (rs' ! i)) = Some (old @ [createdComment])"
    using kept by blast
  have none': "comentarios (h ! (rs ! i)) = None \<longrightarrow>
                 comentarios (h' ! (rs' ! i)) = Some [createdComment]"
    using none by blast
  have ex: "\<exists>i < length rs.
           event_id (h ! (rs ! i)) = eventId
           \<and> length h \<le> rs' ! i
           \<and> (\<forall>old. comentarios (h ! (rs ! i)) = Some old \<longrightarrow>
                 comentarios (h' ! (rs' ! i)) = Some (old @ [createdComment]))
           \<and> (comentarios (h ! (rs ! i)) = None \<longrightarrow>
                 comentarios (h' ! (rs' ! i)) = Some [createdComment])
           \<and> h' ! (rs' ! i) = (h ! (rs ! i))\<lparr>comentarios := comentarios (h' ! (rs' ! i))\<rparr>
           \<and> (\<forall>j < length rs. j \<noteq> i \<longrightarrow>
                 rs' ! j = rs ! j \<and> h' ! (rs' ! j) = h ! (rs ! j))"
  proof (intro exI[of _ i] conjI)
    show "i < length rs" by (rule i(1))
    show "event_id (h ! (rs ! i)) = eventId" by (rule i(2))
    show "length h \<le> rs' ! i" by (rule fresh)
    show "\<forall>old. comentarios (h ! (rs ! i)) = Some old \<longrightarrow>
                 comentarios (h' ! (rs' ! i)) = Some (old @ [createdComment])"
      by (rule kept')
    show "comentarios (h ! (rs ! i)) = None \<longrightarrow>
                 comentarios (h' ! (rs' ! i)) = Some [createdComment]"
      by (rule none')
    show "h' ! (rs' ! i) = (h ! (rs ! i))\<lparr>comentarios := comentarios (h' ! (rs' ! i))\<rparr>"
      by (rule fields)
    show "\<forall>j < length rs. j \<noteq> i \<longrightarrow>
                 rs' ! j = rs ! j \<and> h' ! (rs' ! j) = h ! (rs ! j)"
      by (rule rest')
  qed
  have pre: "take (length h) h' = h" by (simp add: ext)
  show ?thesis
  proof (intro conjI)
    show "length rs' = length rs" by (rule len)
    show "take (length h) h' = h" by (rule pre)
    show "deref h' rs' = updatedEvents (deref h rs) eventId createdComment"
      by (rule updatedEvents_store_deref[OF assms(1,3)])
    show "\<exists>i < length rs.
           event_id (h ! (rs ! i)) = eventId
           \<and> length h \<le> rs' ! i
           \<and> (\<forall>old. comentarios (h ! (rs ! i)) = Some old \<longrightarrow>
                 comentarios (h' ! (rs' ! i)) = Some (old @ [createdComment]))
           \<and> (comentarios (h ! (rs ! i)) = None \<longrightarrow>
                 comentarios (h' ! (rs' ! i)) = Some [createdComment])
           \<and> h' ! (rs' ! i) = (h ! (rs ! i))\<lparr>comentarios := comentarios (h' ! (rs' ! i))\<rparr>
           \<and> (\<forall>j < length rs. j \<noteq> i \<longrightarrow>
                 rs' ! j = rs ! j \<and> h' ! (rs' ! j) = h ! (rs ! j))"
      by (rule ex)
  qed
qed

theorem appendComment_frame_witness:
  "valid_refs [techconf, rated, unnamed] [0, 1, 2]
   \<and> length (filter (\<lambda>r. event_id ([techconf, rated, unnamed] ! r) = 2) [0, 1, 2]) = 1
   \<and> comentarios rated = Some [Some praise, Some critique]
   \<and> updatedEvents_store [techconf, rated, unnamed] [0, 1, 2] 2 (Some encore)
       = ([techconf, rated, unnamed,
           rated\<lparr>comentarios := Some [Some praise, Some critique, Some encore]\<rparr>], [0, 3, 2])
   \<and> deref [techconf, rated, unnamed,
            rated\<lparr>comentarios := Some [Some praise, Some critique, Some encore]\<rparr>] [0, 3, 2]
       = updatedEvents (deref [techconf, rated, unnamed] [0, 1, 2]) 2 (Some encore)
   \<and> updatedEvents [techconf, rated, unnamed] 2 (Some encore)
       = [techconf, rated\<lparr>comentarios := Some [Some praise, Some critique, Some encore]\<rparr>, unnamed]"
proof -
  have v: "valid_refs [techconf, rated, unnamed] [0, 1, 2]"
    by (simp add: valid_refs_def)
  have one: "length (filter (\<lambda>r. event_id ([techconf, rated, unnamed] ! r) = 2) [0, 1, 2]) = 1"
    by (simp add: techconf_def rated_def workshop_def unnamed_def)
  have c: "comentarios rated = Some [Some praise, Some critique]" by (simp add: rated_def)
  have run: "updatedEvents_store [techconf, rated, unnamed] [0, 1, 2] 2 (Some encore)
       = ([techconf, rated, unnamed,
           rated\<lparr>comentarios := Some [Some praise, Some critique, Some encore]\<rparr>], [0, 3, 2])"
    by (simp add: alloc_def comentarios_or_empty_def techconf_def rated_def workshop_def
        unnamed_def)
  have val: "updatedEvents [techconf, rated, unnamed] 2 (Some encore)
       = [techconf, rated\<lparr>comentarios := Some [Some praise, Some critique, Some encore]\<rparr>, unnamed]"
    by (simp add: updatedEvents_def comentarios_or_empty_def techconf_def rated_def
        workshop_def unnamed_def)
  from appendComment_frame[OF v one run]
  have "deref [techconf, rated, unnamed,
            rated\<lparr>comentarios := Some [Some praise, Some critique, Some encore]\<rparr>] [0, 3, 2]
       = updatedEvents (deref [techconf, rated, unnamed] [0, 1, 2]) 2 (Some encore)"
    by (elim conjE)
  with v one c run val show ?thesis by (intro conjI)
qed

section \<open>Claims about the order\<close>

lemma compareFn_valid:
  "dateOf newDate a \<noteq> None \<Longrightarrow> dateOf newDate b \<noteq> None \<Longrightarrow>
     compareFn newDate a b = Some (time_value newDate b - time_value newDate a)"
  by (auto simp: compareFn_def time_value_def Let_def)

lemma insert_sorted_insort:
  "dateOf newDate x \<noteq> None \<Longrightarrow> \<forall>y \<in> set ys. dateOf newDate y \<noteq> None \<Longrightarrow>
     insert_sorted (compareFn newDate) x ys = insort_key (\<lambda>e. - time_value newDate e) x ys"
  by (induction ys) (auto simp: compareFn_valid)

lemma array_sort_sort_key:
  "\<forall>x \<in> set xs. dateOf newDate x \<noteq> None \<Longrightarrow>
     array_sort (compareFn newDate) xs = sort_key (\<lambda>e. - time_value newDate e) xs"
proof (induction xs)
  case Nil
  show ?case by (simp add: array_sort_def)
next
  case (Cons x xs)
  then have ih: "array_sort (compareFn newDate) xs = sort_key (\<lambda>e. - time_value newDate e) xs"
    by simp
  have "array_sort (compareFn newDate) (x # xs)
          = insert_sorted (compareFn newDate) x (array_sort (compareFn newDate) xs)"
    by (simp add: array_sort_def)
  also have "\<dots> = insert_sorted (compareFn newDate) x (sort_key (\<lambda>e. - time_value newDate e) xs)"
    by (simp only: ih)
  also have "\<dots> = insort_key (\<lambda>e. - time_value newDate e) x (sort_key (\<lambda>e. - time_value newDate e) xs)"
    using Cons.prems by (intro insert_sorted_insort) auto
  also have "\<dots> = sort_key (\<lambda>e. - time_value newDate e) (x # xs)"
    by (simp add: sort_key_def)
  finally show ?case .
qed

lemma sortedEvents_sort_key:
  "valid_dates newDate es \<Longrightarrow>
     sortedEvents newDate es = sort_key (\<lambda>e. - time_value newDate e) es"
  by (simp add: sortedEvents_def valid_dates_def list_all_iff array_sort_sort_key)

lemma has_no_date_time_value: "has_no_date e \<Longrightarrow> time_value newDate e = 0"
  by (auto simp: has_no_date_def time_value_def dateOf_def)

text \<open>
  C3 as stated fails: an event without a date is placed before an event whose date is
  earlier than the epoch.
\<close>

theorem dateless_before_dated:
  "sortedEvents iso_example [reveillon, unnamed] = [unnamed, reveillon]
   \<and> data unnamed = None \<and> data reveillon = Some ''1969-12-31''"
  by (simp add: sortedEvents_def array_sort_def compareFn_def dateOf_def iso_example_def
      reveillon_def unnamed_def)

text \<open>
  C3, amended. When the dates of the events parse, the sorted list holds the same
  events, in descending order of their time value, an event without a date counting as
  the time value zero; events of equal time value, among them all the events without a
  date, keep the order of the input. So an event without a date comes after every
  event dated after the epoch: no event that follows it has a positive time value.
\<close>

theorem sortedEvents_descending_stable:
  assumes "valid_dates newDate es"
  shows "mset (sortedEvents newDate es) = mset es
     \<and> sorted_wrt (\<lambda>a b. time_value newDate b \<le> time_value newDate a) (sortedEvents newDate es)
     \<and> (\<forall>t. filter (\<lambda>e. time_value newDate e = t) (sortedEvents newDate es)
              = filter (\<lambda>e. time_value newDate e = t) es)
     \<and> filter has_no_date (sortedEvents newDate es) = filter has_no_date es
     \<and> (\<forall>e. has_no_date e \<longrightarrow> time_value newDate e = 0)
     \<and> (\<forall>i j. i < j \<and> j < length es \<and> has_no_date (sortedEvents newDate es ! i) \<longrightarrow>
            time_value newDate (sortedEvents newDate es ! j) \<le> 0)"
proof -
  let ?f = "\<lambda>e. - time_value newDate e"
  let ?s = "sortedEvents newDate es"
  have eq: "?s = sort_key ?f es" by (rule sortedEvents_sort_key[OF assms])
  have perm: "mset ?s = mset es" by (simp add: eq)
  have "sorted (map ?f ?s)" by (simp add: eq)
  then have desc: "sorted_wrt (\<lambda>a b. time_value newDate b \<le> time_value newDate a) ?s"
    by (simp add: sorted_map)
  have stable: "filter (\<lambda>e. time_value newDate e = t) ?s = filter (\<lambda>e. time_value newDate e = t) es"
    for t
  proof -
    have "filter (\<lambda>e. ?f e = - t) (sort_key ?f es) = filter (\<lambda>e. ?f e = - t) es"
      by (rule sort_key_stable)
    then show ?thesis by (simp add: eq)
  qed
  have "filter has_no_date (filter (\<lambda>e. time_value newDate e = 0) ?s)
          = filter has_no_date (filter (\<lambda>e. time_value newDate e = 0) es)"
    by (simp only: stable)
  moreover have "filter has_no_date (filter (\<lambda>e. time_value newDate e = 0) xs) = filter has_no_date xs"
    for xs
    by (induction xs) (auto simp: has_no_date_time_value)
  ultimately have dateless: "filter has_no_date ?s = filter has_no_date es" by simp
  have len: "length ?s = length es" using perm by (metis size_mset)
  have after: "time_value newDate (?s ! j) \<le> 0"
    if "i < j \<and> j < length es \<and> has_no_date (?s ! i)" for i j
  proof -
    from that len have "time_value newDate (?s ! j) \<le> time_value newDate (?s ! i)"
      using desc by (simp add: sorted_wrt_iff_nth_less)
    with that show ?thesis by (simp add: has_no_date_time_value)
  qed
  show ?thesis using perm desc stable dateless after has_no_date_time_value by blast
qed

theorem sortedEvents_descending_stable_witness:
  "valid_dates iso_example [unnamed, techconf, confraria, workshop]
   \<and> sortedEvents iso_example [unnamed, techconf, confraria, workshop]
       = [workshop, techconf, unnamed, confraria]
   \<and> mset [workshop, techconf, unnamed, confraria] = mset [unnamed, techconf, confraria, workshop]
   \<and> filter has_no_date [workshop, techconf, unnamed, confraria] = [unnamed, confraria]"
proof -
  have v: "valid_dates iso_example [unnamed, techconf, confraria, workshop]"
    by (simp add: valid_dates_def dateOf_def iso_example_def unnamed_def techconf_def
        confraria_def workshop_def)
  have run: "sortedEvents iso_example [unnamed, techconf, confraria, workshop]
       = [workshop, techconf, unnamed, confraria]"
    by (simp add: sortedEvents_def array_sort_def compareFn_def dateOf_def iso_example_def
        unnamed_def techconf_def confraria_def workshop_def)
  have nd: "filter has_no_date [unnamed, techconf, confraria, workshop] = [unnamed, confraria]"
    by (simp add: has_no_date_def unnamed_def techconf_def confraria_def workshop_def)
  from sortedEvents_descending_stable[OF v] have
    "mset (sortedEvents iso_example [unnamed, techconf, confraria, workshop])
       = mset [unnamed, techconf, confraria, workshop]"
    "filter has_no_date (sortedEvents iso_example [unnamed, techconf, confraria, workshop])
       = filter has_no_date [unnamed, techconf, confraria, workshop]"
    by blast+
  with v run nd show ?thesis by (simp only: simp_thms)
qed

section \<open>Facts about numbers\<close>

lemma round_half_even_error: "\<bar>of_int (round_half_even y) - y\<bar> \<le> 1 / 2"
proof -
  have "0 \<le> y - of_int \<lfloor>y\<rfloor>" "y - of_int \<lfloor>y\<rfloor> < 1" by linarith+
  then show ?thesis by (auto simp: round_half_even_def Let_def)
qed

lemma round_half_even_of_int: "round_half_even (of_int n) = n"
  by (simp add: round_half_even_def)

lemma bitlen_powi_bounds:
  assumes "0 < p"
  shows "(2::rat) powi (bitlen p - 1) \<le> of_int p" and "of_int p < (2::rat) powi (bitlen p)"
proof -
  from assms have b: "1 \<le> bitlen p" by (simp add: bitlen_alt_def)
  from bitlen_bounds[OF assms]
  have lo: "2 ^ nat (bitlen p - 1) \<le> p" and up: "p < 2 ^ nat (bitlen p)" by simp_all
  from lo have "(of_int (2 ^ nat (bitlen p - 1)) :: rat) \<le> of_int p"
    by (simp only: of_int_le_iff)
  then show "(2::rat) powi (bitlen p - 1) \<le> of_int p"
    using b by (simp add: power_int_nonneg_exp)
  from up have "(of_int p :: rat) < of_int (2 ^ nat (bitlen p))"
    by (simp only: of_int_less_iff)
  then show "of_int p < (2::rat) powi (bitlen p)"
    using b by (simp add: power_int_nonneg_exp)
qed

lemma floor_log2_bounds:
  assumes "0 < x"
  shows "2 powi (floor_log2 x) \<le> x \<and> x < 2 powi (floor_log2 x + 1)"
proof -
  obtain p q where pq: "quotient_of x = (p, q)" by (cases "quotient_of x") auto
  then have q: "0 < q" and x: "x = of_int p / of_int q"
    by (simp_all add: quotient_of_denom_pos quotient_of_div)
  with assms have p: "0 < p" by (simp add: zero_less_divide_iff)
  define k where "k = bitlen p - bitlen q"
  have "x < 2 powi (bitlen p) / 2 powi (bitlen q - 1)"
    unfolding x using p q bitlen_powi_bounds(2)[OF p] bitlen_powi_bounds(1)[OF q]
    by (intro frac_less) simp_all
  also have "\<dots> = 2 powi (k + 1)"
    by (simp add: k_def power_int_diff[symmetric] algebra_simps)
  finally have up: "x < 2 powi (k + 1)" .
  have "(2::rat) powi (bitlen p - 1) / 2 powi (bitlen q) \<le> x"
    unfolding x using p q bitlen_powi_bounds(1)[OF p] bitlen_powi_bounds(2)[OF q]
    by (intro frac_le) simp_all
  moreover have "(2::rat) powi (bitlen p - 1) / 2 powi (bitlen q) = 2 powi (k - 1)"
    by (simp add: k_def power_int_diff[symmetric] algebra_simps)
  ultimately have lo: "2 powi (k - 1) \<le> x" by simp
  show ?thesis
    using up lo by (auto simp: floor_log2_def pq k_def[symmetric] Let_def not_le)
qed


lemma floor_log2_less:
  assumes "0 < x" and "x < 2 powi b"
  shows "floor_log2 x < b"
proof (rule ccontr)
  assume "\<not> floor_log2 x < b"
  then have "(2::rat) powi b \<le> 2 powi (floor_log2 x)"
    by (intro power_int_increasing) simp_all
  with floor_log2_bounds[OF assms(1)] assms(2) show False by simp
qed

lemma floor_log2_ge:
  assumes "2 powi b \<le> x"
  shows "b \<le> floor_log2 x"
proof (rule ccontr)
  have "(0::rat) < 2 powi b" by simp
  with assms have pos: "0 < x" by linarith
  assume "\<not> b \<le> floor_log2 x"
  then have "(2::rat) powi (floor_log2 x + 1) \<le> 2 powi b"
    by (intro power_int_increasing) simp_all
  with floor_log2_bounds[OF pos] assms show False by simp
qed

lemma scaled_int_exact:
  assumes "e \<le> 0"
  shows "of_int (round_half_even (of_int n / 2 powi e)) * 2 powi e = (of_int n :: rat)"
proof -
  have pw: "(2::rat) powi e = inverse (2 ^ nat (- e))"
    using assms by (simp add: power_int_def power_one_over inverse_eq_divide)
  have "(of_int n :: rat) / 2 powi e = of_int (n * 2 ^ nat (- e))"
    by (simp add: pw divide_inverse)
  then have "round_half_even (of_int n / 2 powi e) = n * 2 ^ nat (- e)"
    by (simp only: round_half_even_of_int)
  then show ?thesis by (simp add: pw)
qed

lemma fl_of_int:
  assumes "0 \<le> n" and "n < 2 ^ 53"
  shows "fl (of_int n) = of_int n"
proof (cases "n = 0")
  case True
  then show ?thesis by (simp add: fl_def)
next
  case False
  with assms have pos: "(0::rat) < of_int n" by simp
  have "(of_int n :: rat) < of_int (2 ^ 53)" using assms(2) by (simp only: of_int_less_iff)
  then have "(of_int n :: rat) < 2 powi 53" by simp
  from floor_log2_less[OF pos this] have e: "max (floor_log2 (of_int n) - 52) (- 1074) \<le> 0"
    by simp
  have "fl (of_int n) = of_int (round_half_even (of_int n / 2 powi (max (floor_log2 (of_int n) - 52) (- 1074))))
          * 2 powi (max (floor_log2 (of_int n) - 52) (- 1074))"
    using pos by (simp add: fl_def Let_def)
  also have "\<dots> = of_int n" by (rule scaled_int_exact[OF e])
  finally show ?thesis .
qed

lemma fl_error:
  assumes "2 powi (- 1022) \<le> x"
  shows "\<bar>fl x - x\<bar> \<le> x / 2 ^ 53"
proof -
  have pos: "0 < x" using assms zero_less_power_int[of "2::rat" "- 1022"] by linarith
  define e where "e = floor_log2 x - 52"
  have "- 1022 \<le> floor_log2 x" by (rule floor_log2_ge[OF assms])
  then have emax: "max (floor_log2 x - 52) (- 1074) = e" by (simp add: e_def)
  define m where "m = round_half_even (x / 2 powi e)"
  have p2: "(0::rat) < 2 powi e" by simp
  have flx: "fl x = of_int m * 2 powi e"
    using pos by (simp add: fl_def Let_def emax m_def)
  have "fl x - x = (of_int m - x / 2 powi e) * 2 powi e"
    using p2 by (simp add: flx algebra_simps)
  then have "\<bar>fl x - x\<bar> = \<bar>of_int m - x / 2 powi e\<bar> * 2 powi e"
    using p2 by (simp add: abs_mult)
  also have "\<dots> \<le> (1 / 2) * 2 powi e"
    using round_half_even_error[of "x / 2 powi e"] p2 unfolding m_def
    by (intro mult_right_mono) simp_all
  also have "\<dots> = 2 powi (floor_log2 x) / 2 ^ 53"
  proof -
    have "(2::rat) powi e = 2 powi (floor_log2 x) / 2 powi 52"
      unfolding e_def by (rule power_int_diff) simp
    then show ?thesis by simp
  qed
  also have "\<dots> \<le> x / 2 ^ 53"
    using floor_log2_bounds[OF pos] by (simp add: divide_right_mono)
  finally show ?thesis .
qed

lemma nearest_tenth:
  fixes s k :: int
  assumes s: "0 < s" and k: "0 < k" and small: "20 * s < 2 ^ 53"
    and normal: "2 powi (- 1022) \<le> (of_int s / of_int k :: rat)"
  defines "d \<equiv> fl (of_int s / of_int k)"
  shows "\<bar>of_int \<lfloor>d * 10 + 1 / 2\<rfloor> / 10 - of_int s / of_int k\<bar> \<le> (1 / 20 :: rat)"
    and "0 \<le> d"
proof -
  define q :: rat where "q = of_int s / of_int k"
  define N where "N = \<lfloor>d * 10 + 1 / 2\<rfloor>"
  have kr: "(0::rat) < of_int k" using k by simp
  have qpos: "0 < q" using s k by (simp add: q_def)
  have err: "\<bar>d - q\<bar> \<le> q / 2 ^ 53"
    unfolding d_def q_def by (rule fl_error[OF normal])
  have "q / 2 ^ 53 \<le> q" using qpos by (simp add: divide_le_eq)
  with err show "0 \<le> d" by linarith
  have fl1: "of_int N \<le> d * 10 + 1 / 2" and fl2: "d * 10 + 1 / 2 < of_int N + 1"
    unfolding N_def by linarith+
  have near: "\<bar>of_int N - 10 * d\<bar> \<le> 1 / 2" using fl1 fl2 by linarith
  have tri: "\<bar>of_int N - 10 * q\<bar> \<le> 1 / 2 + 10 * (q / 2 ^ 53)"
    using near err by linarith
  have scale: "\<bar>of_int N - 10 * q\<bar> * (2 * of_int k) = \<bar>of_int (2 * N * k - 20 * s)\<bar>"
  proof -
    have "(of_int N - 10 * q) * (2 * of_int k) = (of_int (2 * N * k - 20 * s) :: rat)"
      using kr by (simp add: q_def algebra_simps)
    then have "\<bar>(of_int N - 10 * q) * (2 * of_int k)\<bar> = \<bar>of_int (2 * N * k - 20 * s) :: rat\<bar>"
      by simp
    then show ?thesis using kr by (simp add: abs_mult)
  qed
  have upper: "\<bar>of_int N - 10 * q\<bar> * (2 * of_int k) < of_int k + 1"
  proof -
    have "\<bar>of_int N - 10 * q\<bar> * (2 * of_int k) \<le> (1 / 2 + 10 * (q / 2 ^ 53)) * (2 * of_int k)"
      using tri kr by (intro mult_right_mono) simp_all
    also have "\<dots> = of_int k + of_int (20 * s) / 2 ^ 53"
      using kr by (simp add: q_def algebra_simps)
    also have "\<dots> < of_int k + 1"
    proof -
      have "(of_int (20 * s) :: rat) < of_int (2 ^ 53)" using small by (simp only: of_int_less_iff)
      then have "(of_int (20 * s) :: rat) / 2 ^ 53 < 1" by simp
      then show ?thesis by simp
    qed
    finally show ?thesis .
  qed
  have "\<bar>2 * N * k - 20 * s\<bar> < k + 1"
  proof -
    have "(of_int \<bar>2 * N * k - 20 * s\<bar> :: rat) < of_int (k + 1)"
      using upper scale by simp
    then show ?thesis by (simp only: of_int_less_iff)
  qed
  then have "\<bar>2 * N * k - 20 * s\<bar> \<le> k" by simp
  then have "(of_int \<bar>2 * N * k - 20 * s\<bar> :: rat) \<le> of_int k" by (simp only: of_int_le_iff)
  with scale have "\<bar>of_int N - 10 * q\<bar> * (2 * of_int k) \<le> of_int k" by simp
  then have "\<bar>of_int N - 10 * q\<bar> \<le> 1 / 2" using kr by (simp add: field_simps)
  then have "\<bar>of_int N / 10 - q\<bar> \<le> 1 / 20" by (simp add: field_simps abs_if split: if_splits)
  then show "\<bar>of_int \<lfloor>d * 10 + 1 / 2\<rfloor> / 10 - of_int s / of_int k\<bar> \<le> (1 / 20 :: rat)"
    by (simp add: N_def q_def)
qed


lemma digit_char_0: "digit_char 0 = CHR ''0''"
  by (simp add: digit_char_def char_of_eq_iff)

lemma decimal_digits_small: "n < 10 \<Longrightarrow> decimal_digits n = [digit_char n]"
  by (simp add: decimal_digits.simps)

lemma decimal_digits_large:
  "\<not> n < 10 \<Longrightarrow> decimal_digits n = decimal_digits (n div 10) @ [digit_char (n mod 10)]"
  by (subst decimal_digits.simps) simp

lemma decimal_digits_nonempty: "decimal_digits n \<noteq> []"
  by (cases "n < 10") (simp_all add: decimal_digits_small decimal_digits_large)

lemma tenths_one_decimal: "tenths n = one_decimal n"
proof (cases "n < 10")
  case True
  then show ?thesis
    by (simp add: tenths_def one_decimal_def decimal_digits_small digit_char_0)
next
  case False
  have "0 < length (decimal_digits (n div 10))"
    using decimal_digits_nonempty[of "n div 10"] by simp
  then show ?thesis
    using False by (simp add: tenths_def one_decimal_def decimal_digits_large Let_def)
qed

lemma toFixed1_nonneg: "0 \<le> x \<Longrightarrow> toFixed1 x = one_decimal (nat \<lfloor>x * 10 + 1 / 2\<rfloor>)"
  by (simp add: toFixed1_def tenths_one_decimal)

section \<open>Claims about the average rating\<close>

lemma rating_or_zero_rating_of: "rating_or_zero c = of_int (rating_of (Some c))"
  by (simp add: rating_or_zero_def rating_of_def split: option.splits)

lemma reduce_ratings_exact:
  "list_all is_comment coms \<Longrightarrow> list_all (\<lambda>c. 0 \<le> rating_of c) coms \<Longrightarrow> 0 \<le> a \<Longrightarrow>
     a + sum_list (map rating_of coms) < 2 ^ 53 \<Longrightarrow>
     reduce_ratings coms (of_int a) = Inr (of_int (a + sum_list (map rating_of coms)))"
proof (induction coms arbitrary: a)
  case Nil
  then show ?case by simp
next
  case (Cons com coms)
  from Cons.prems(1) obtain c where c: "com = Some c" by (auto simp: is_comment_def)
  have rest: "0 \<le> sum_list (map rating_of coms)"
    using Cons.prems(2) by (intro sum_list_nonneg) (auto simp: list_all_iff)
  have r: "0 \<le> rating_of com" using Cons.prems(2) by simp
  have "js_add (of_int a) (rating_or_zero c) = fl (of_int (a + rating_of com))"
    by (simp add: js_add_def rating_or_zero_rating_of c)
  also have "\<dots> = of_int (a + rating_of com)"
    using Cons.prems(3,4) r rest by (intro fl_of_int) simp_all
  finally have step: "js_add (of_int a) (rating_or_zero c) = of_int (a + rating_of com)" .
  have "reduce_ratings coms (of_int (a + rating_of com))
          = Inr (of_int (a + rating_of com + sum_list (map rating_of coms)))"
    using Cons.prems r by (intro Cons.IH) (simp_all add: add.assoc)
  then show ?case by (simp add: c step add.assoc)
qed

lemma reduce_ratings_comments:
  "list_all is_comment coms \<Longrightarrow> \<exists>t. reduce_ratings coms acc = Inr t"
  by (induction coms arbitrary: acc) (auto simp: is_comment_def)

lemma sum_ratings_bound:
  "list_all rating_in_range coms \<Longrightarrow>
     0 \<le> sum_list (map rating_of coms) \<and> sum_list (map rating_of coms) \<le> 5 * int (length coms)"
  by (induction coms) (auto simp: rating_in_range_def)

lemma average_of_comments:
  assumes coms: "comentarios e = Some coms" "coms \<noteq> []"
    and ok: "list_all is_comment coms" "list_all rating_in_range coms"
    and len: "length coms < 2 ^ 32"
  shows "\<exists>n. calculateAverageRating (Some e) = Inr (one_decimal n)
           \<and> \<bar>of_nat n / 10 - mean_rating coms\<bar> \<le> 1 / 20"
proof -
  define s where "s = sum_list (map rating_of coms)"
  define k where "k = int (length coms)"
  have k: "0 < k" "k < 2 ^ 32" using coms(2) len by (simp_all add: k_def)
  have s: "0 \<le> s" "s \<le> 5 * k" using sum_ratings_bound[OF ok(2)] by (simp_all add: s_def k_def)
  have small: "20 * s < 2 ^ 53" using s k by simp
  have nonneg: "list_all (\<lambda>c. 0 \<le> rating_of c) coms"
    using ok(2) by (simp add: list_all_iff rating_in_range_def)
  have "reduce_ratings coms (of_int 0) = Inr (of_int (0 + sum_list (map rating_of coms)))"
    using small by (intro reduce_ratings_exact[OF ok(1) nonneg]) (simp_all add: s_def)
  then have red: "reduce_ratings coms 0 = Inr (of_int s)" by (simp add: s_def)
  define d where "d = fl (of_int s / of_int k)"
  have calc: "calculateAverageRating (Some e) = Inr (toFixed1 d)"
    using coms by (simp add: calculateAverageRating_def red js_div_def d_def k_def)
  have mean: "mean_rating coms = of_int s / of_int k"
    by (simp add: mean_rating_def s_def k_def)
  show ?thesis
  proof (cases "s = 0")
    case True
    then have "d = 0" by (simp add: d_def fl_def)
    then have "calculateAverageRating (Some e) = Inr (one_decimal 0)"
      by (simp add: calc toFixed1_nonneg)
    moreover have "\<bar>of_nat 0 / 10 - mean_rating coms\<bar> \<le> 1 / 20"
      using True by (simp add: mean)
    ultimately show ?thesis by blast
  next
    case False
    with s have spos: "0 < s" by simp
    have normal: "2 powi (- 1022) \<le> (of_int s / of_int k :: rat)"
    proof -
      have "(2::rat) powi (- 1022) \<le> 2 powi (- 32)"
        by (intro power_int_increasing) simp_all
      also have "\<dots> = 1 / of_int (2 ^ 32)" by (simp add: power_int_minus_divide)
      also have "\<dots> \<le> 1 / of_int k"
      proof -
        have "(of_int k :: rat) \<le> of_int (2 ^ 32)" using k(2) by (simp only: of_int_le_iff)
        then show ?thesis using k(1) by (intro divide_left_mono) simp_all
      qed
      also have "\<dots> \<le> of_int s / of_int k"
      proof -
        have "(1::rat) \<le> of_int s" using spos by simp
        then show ?thesis using k(1) by (intro divide_right_mono) simp_all
      qed
      finally show ?thesis .
    qed
    from nearest_tenth[OF spos k(1) small normal]
    have near: "\<bar>of_int \<lfloor>d * 10 + 1 / 2\<rfloor> / 10 - of_int s / of_int k\<bar> \<le> (1 / 20 :: rat)"
      and dpos: "0 \<le> d"
      by (simp_all add: d_def)
    define n where "n = nat \<lfloor>d * 10 + 1 / 2\<rfloor>"
    have "0 \<le> \<lfloor>d * 10 + 1 / 2\<rfloor>" using dpos by simp
    then have n: "(of_nat n :: rat) = of_int \<lfloor>d * 10 + 1 / 2\<rfloor>"
      by (simp add: n_def)
    have "calculateAverageRating (Some e) = Inr (one_decimal n)"
      using dpos by (simp add: calc toFixed1_nonneg n_def)
    moreover have "\<bar>of_nat n / 10 - mean_rating coms\<bar> \<le> 1 / 20"
      using near by (simp only: n mean)
    ultimately show ?thesis by blast
  qed
qed

lemma average_of_4_and_2:
  assumes "comentarios e = Some [Some c1, Some c2]"
    and "classificacao c1 = Some 4" and "classificacao c2 = Some 2"
  shows "calculateAverageRating (Some e) = Inr ''3.0''"
proof -
  have f4: "fl 4 = 4" using fl_of_int[of 4] by simp
  have f6: "fl 6 = 6" using fl_of_int[of 6] by simp
  have f3: "fl 3 = 3" using fl_of_int[of 3] by simp
  have red: "reduce_ratings [Some c1, Some c2] 0 = Inr 6"
    using assms(2,3) by (simp add: js_add_def rating_or_zero_def f4 f6)
  have "one_decimal 30 = ''3.0''"
    by (simp add: one_decimal_def decimal_digits_small digit_char_def char_of_eq_iff)
  moreover have "\<lfloor>(3::rat) * 10 + 1 / 2\<rfloor> = 30"
    by (rule floor_unique) simp_all
  ultimately have "toFixed1 3 = ''3.0''" by (simp only: toFixed1_nonneg) simp
  moreover have "js_div 6 (of_nat (length [Some c1, Some c2])) = 3"
    by (simp add: js_div_def f3)
  moreover have "calculateAverageRating (Some e)
      = Inr (toFixed1 (js_div 6 (of_nat (length [Some c1, Some c2]))))"
    using assms(1) red by (simp add: calculateAverageRating_def del: reduce_ratings.simps)
  ultimately show ?thesis by (simp only:)
qed

lemma average_not_available:
  "calculateAverageRating None = Inr ''N/A''"
  "comentarios e = None \<Longrightarrow> calculateAverageRating (Some e) = Inr ''N/A''"
  "comentarios e = Some [] \<Longrightarrow> calculateAverageRating (Some e) = Inr ''N/A''"
  by (simp_all add: calculateAverageRating_def)

text \<open>
  C2. For an event with an empty comment sequence the result is \<^verbatim>\<open>N/A\<close>. For an event
  with comments whose ratings lie between 0 and 5 (a missing rating counting as 0) the
  result is a number with one decimal that is nearest to the arithmetic mean of the
  ratings: it differs from the mean by at most one twentieth. For the ratings 4 and 2
  the result is \<^verbatim>\<open>3.0\<close>.
\<close>

theorem average_rating_is_rounded_mean:
  "(comentarios e = Some [] \<longrightarrow> calculateAverageRating (Some e) = Inr ''N/A'')
   \<and> (\<forall>coms. comentarios e = Some coms \<and> coms \<noteq> [] \<and> list_all is_comment coms
          \<and> list_all rating_in_range coms \<and> length coms < 2 ^ 32 \<longrightarrow>
        (\<exists>n. calculateAverageRating (Some e) = Inr (one_decimal n)
           \<and> \<bar>of_nat n / 10 - mean_rating coms\<bar> \<le> 1 / 20))
   \<and> (\<forall>c1 c2. comentarios e = Some [Some c1, Some c2] \<and> classificacao c1 = Some 4
          \<and> classificacao c2 = Some 2 \<longrightarrow>
        calculateAverageRating (Some e) = Inr ''3.0'')"
  using average_not_available(3)[of e] average_of_comments[of e] average_of_4_and_2[of e]
  by blast

theorem average_rating_is_rounded_mean_witness:
  "comentarios rated = Some [Some praise, Some critique]
   \<and> classificacao praise = Some 4 \<and> classificacao critique = Some 2
   \<and> calculateAverageRating (Some rated) = Inr ''3.0''
   \<and> mean_rating [Some praise, Some critique] = 3
   \<and> list_all is_comment [Some praise, Some critique]
   \<and> list_all rating_in_range [Some praise, Some critique]
   \<and> comentarios techconf = Some []
   \<and> calculateAverageRating (Some techconf) = Inr ''N/A''"
proof -
  have a: "comentarios rated = Some [Some praise, Some critique]"
    by (simp add: rated_def)
  have b: "classificacao praise = Some 4" "classificacao critique = Some 2"
    by (simp_all add: praise_def critique_def)
  have c: "comentarios techconf = Some []" by (simp add: techconf_def)
  have d: "mean_rating [Some praise, Some critique] = 3"
    by (simp add: mean_rating_def rating_of_def b)
  have e: "list_all is_comment [Some praise, Some critique]"
    "list_all rating_in_range [Some praise, Some critique]"
    by (simp_all add: is_comment_def rating_in_range_def rating_of_def b)
  from average_rating_is_rounded_mean[of rated] a b
  have "calculateAverageRating (Some rated) = Inr ''3.0''" by blast
  moreover from average_rating_is_rounded_mean[of techconf] c
  have "calculateAverageRating (Some techconf) = Inr ''N/A''" by blast
  ultimately show ?thesis using a b c d e by blast
qed

text \<open>
  C10 as stated fails: on an event whose comment sequence has a \<^verbatim>\<open>null\<close> entry the
  function throws a \<^verbatim>\<open>TypeError\<close>, and such an event is what the collection holds
  after a create-comment response whose body is \<^verbatim>\<open>null\<close>.
\<close>

theorem average_rating_throws:
  "calculateAverageRating (Some (workshop\<lparr>comentarios := Some [None]\<rparr>)) = Inl TypeError
   \<and> events (handleSubmitNewComment 2 (Resolved (Response 201 (Inr None))) listing) ! 1
       = workshop\<lparr>comentarios := Some [None]\<rparr>"
  by (simp add: calculateAverageRating_def handleSubmitNewComment_def updatedEvents_def
      comentarios_or_empty_def ok_def listing_def initial_state_def techconf_def workshop_def
      unnamed_def)

text \<open>
  C10, amended. For no event at all and for an event whose comment sequence is
  missing or empty the result is \<^verbatim>\<open>N/A\<close>; and the function returns a string, without
  throwing, for every event whose comment sequence holds comment objects only.
\<close>

theorem average_rating_total_on_comments:
  "calculateAverageRating None = Inr ''N/A''
   \<and> (comentarios e = None \<longrightarrow> calculateAverageRating (Some e) = Inr ''N/A'')
   \<and> (comentarios e = Some [] \<longrightarrow> calculateAverageRating (Some e) = Inr ''N/A'')
   \<and> (\<forall>coms. comentarios e = Some coms \<and> list_all is_comment coms \<longrightarrow>
         (\<exists>s. calculateAverageRating (Some e) = Inr s))"
proof -
  have "\<exists>s. calculateAverageRating (Some e) = Inr s"
    if "comentarios e = Some coms \<and> list_all is_comment coms" for coms
  proof -
    from that reduce_ratings_comments[of coms 0] obtain t where "reduce_ratings coms 0 = Inr t"
      by blast
    with that show ?thesis by (simp add: calculateAverageRating_def)
  qed
  with average_not_available(1) average_not_available(2,3)[of e] show ?thesis by blast
qed

theorem average_rating_total_on_comments_witness:
  "comentarios confraria = None
   \<and> calculateAverageRating (Some confraria) = Inr ''N/A''
   \<and> comentarios rated = Some [Some praise, Some critique]
   \<and> list_all is_comment [Some praise, Some critique]
   \<and> (\<exists>s. calculateAverageRating (Some rated) = Inr s)"
proof -
  have a: "comentarios confraria = None" by (simp add: confraria_def)
  have b: "comentarios rated = Some [Some praise, Some critique]" by (simp add: rated_def)
  have c: "list_all is_comment [Some praise, Some critique]" by (simp add: is_comment_def)
  from average_rating_total_on_comments[of confraria] a
  have "calculateAverageRating (Some confraria) = Inr ''N/A''" by blast
  moreover from average_rating_total_on_comments[of rated] b c
  have "\<exists>s. calculateAverageRating (Some rated) = Inr s" by blast
  ultimately show ?thesis using a b c by blast
qed

end
